theory Spec2Isabelle
  imports Main "HOL-Library.Word" "HOL-Library.Monad_Syntax"
begin

unbundle bit_operations_syntax

section \<open>Machine types of apdu.h\<close>

text \<open>
  \<open>uint8_t\<close> is an 8-bit word read by \<open>unat\<close>/\<open>uint\<close>. \<open>int8_t\<close> has the same eight
  bits and is read as two's complement by \<open>sint\<close>. \<open>size_t\<close> is the unsigned 64-bit
  type of an LP64 target: \<open>+\<close> wraps modulo \<open>2 ^ 64\<close>, \<open><\<close> compares unsigned. The
  \<open>difference_type\<close> of the vector's iterators is the signed 64-bit type of the same
  target; a \<open>size_t\<close> converted to it keeps its bits and is read by \<open>sint\<close>.
\<close>

type_synonym uint8_t = "8 word"
type_synonym int8_t = "8 word"
type_synonym size_t = "64 word"

section \<open>class CommandApdu\<close>

text \<open>
  The three private members. The two iterators into \<open>mCommand\<close> are kept as offsets
  from \<open>mCommand.begin()\<close>; \<open>mCommand.end()\<close> is the offset \<open>length mCommand\<close>.
\<close>

record CommandApdu =
  mCommand :: "uint8_t list"
  mDataBegin :: nat
  mDataEnd :: nat

text \<open>The \<open>constexpr\<close> locals of the constructor.\<close>

definition headerSize :: size_t where
  "headerSize = 4"

definition shortLcMax :: size_t where
  "shortLcMax = 255"

definition shortLeMax :: size_t where
  "shortLeMax = 255 + 1"

definition extendedLeMax :: size_t where
  "extendedLeMax = 65535 + 1"

text \<open>The \<open>const\<close> locals computed from \<open>lc\<close> and \<open>le\<close> (lines 51 to 56).\<close>

definition extended :: "size_t \<Rightarrow> size_t \<Rightarrow> bool" where
  "extended lc le = (lc > shortLcMax \<or> le > shortLeMax)"

definition hasLc :: "size_t \<Rightarrow> bool" where
  "hasLc lc = (lc > 0)"

definition hasLe :: "size_t \<Rightarrow> bool" where
  "hasLe le = (le > 0)"

definition lcSize :: "size_t \<Rightarrow> size_t \<Rightarrow> size_t" where
  "lcSize lc le = (if hasLc lc then (if extended lc le then 3 else 1) else 0)"

definition leSize :: "size_t \<Rightarrow> size_t \<Rightarrow> size_t" where
  "leSize lc le =
     (if hasLe le then (if extended lc le then (if hasLc lc then 2 else 3) else 1) else 0)"

definition commandSize :: "size_t \<Rightarrow> size_t \<Rightarrow> size_t" where
  "commandSize lc le = headerSize + lcSize lc le + lc + leSize lc le"

text \<open>
  The write cursor is the buffer together with the offset of the iterator \<open>it\<close>.
  \<open>put v\<close> is the statement \<open>*it++ = v\<close>: a store through an iterator that is not
  inside the buffer is undefined behaviour, which the model reports as \<open>None\<close>.
  \<open>advance d\<close> is \<open>it += d\<close>. The operand of \<open>+=\<close> on a vector iterator has the
  signed \<open>difference_type\<close>, so \<open>d\<close> is an integer of either sign and the iterator can
  move backwards; a move that leaves the range from \<open>begin()\<close> to \<open>end()\<close> is undefined
  as well.
\<close>

type_synonym cursor = "uint8_t list \<times> nat"

definition put :: "uint8_t \<Rightarrow> cursor \<Rightarrow> cursor option" where
  "put v s = (case s of (buf, it) \<Rightarrow>
     if it < length buf then Some (buf[it := v], Suc it) else None)"

definition advance :: "int \<Rightarrow> cursor \<Rightarrow> cursor option" where
  "advance d s = (case s of (buf, it) \<Rightarrow>
     if 0 \<le> int it + d \<and> int it + d \<le> int (length buf)
     then Some (buf, nat (int it + d)) else None)"

text \<open>
  Lines 67 to 82: the Lc field and the data region. The result is the cursor after the
  region together with \<open>mDataBegin\<close> and \<open>mDataEnd\<close>. In \<open>it += lc\<close> the \<open>size_t\<close>
  value \<open>lc\<close> is converted to the 64-bit signed \<open>difference_type\<close>, which keeps its
  bits: the step is \<open>sint lc\<close>.
\<close>

definition writeLc :: "size_t \<Rightarrow> size_t \<Rightarrow> cursor \<Rightarrow> (cursor \<times> nat \<times> nat) option" where
  "writeLc lc le s =
     (if hasLc lc then do {
        s1 \<leftarrow> (if extended lc le then do {
                 s' \<leftarrow> put 0 s;
                 put (ucast (0xff AND drop_bit 8 lc)) s'
               } else Some s);
        s2 \<leftarrow> put (ucast (0xff AND lc)) s1;
        s3 \<leftarrow> advance (sint lc) s2;
        Some (s3, snd s2, snd s3)
      } else Some (s, length (fst s), length (fst s)))"

text \<open>Lines 85 to 101: the Le field.\<close>

definition writeLe :: "size_t \<Rightarrow> size_t \<Rightarrow> cursor \<Rightarrow> cursor option" where
  "writeLe lc le s =
     (if hasLe le then
        (if extended lc le then do {
           s1 \<leftarrow> (if \<not> hasLc lc then put 0 s else Some s);
           s2 \<leftarrow> put (ucast (if le = extendedLeMax then 0 else 0xff AND drop_bit 8 le)) s1;
           put (ucast (if le = extendedLeMax then 0 else 0xff AND le)) s2
         } else put (ucast (if le = shortLeMax then 0 else 0xff AND le)) s)
      else Some s)"

text \<open>
  The six-argument constructor. \<open>mCommand.resize(commandSize, 0)\<close> on the empty vector
  gives \<open>commandSize\<close> zero bytes (the allocation is taken to succeed); then the header,
  the Lc field with the data region, and the Le field are written through \<open>it\<close>.
\<close>

definition CommandApdu :: "uint8_t \<Rightarrow> uint8_t \<Rightarrow> uint8_t \<Rightarrow> uint8_t \<Rightarrow> size_t \<Rightarrow> size_t
    \<Rightarrow> CommandApdu option" where
  "CommandApdu cla ins p1 p2 lc le = do {
     s1 \<leftarrow> put cla (replicate (unat (commandSize lc le)) 0, 0);
     s2 \<leftarrow> put ins s1;
     s3 \<leftarrow> put p1 s2;
     s4 \<leftarrow> put p2 s3;
     (s5, b, e) \<leftarrow> writeLc lc le s4;
     s6 \<leftarrow> writeLe lc le s5;
     Some \<lparr>mCommand = fst s6, mDataBegin = b, mDataEnd = e\<rparr>
   }"

text \<open>The four-argument constructor delegates with \<open>lc = 0\<close> and \<open>le = 0\<close>.\<close>

definition CommandApdu4 :: "uint8_t \<Rightarrow> uint8_t \<Rightarrow> uint8_t \<Rightarrow> uint8_t \<Rightarrow> CommandApdu option" where
  "CommandApdu4 cla ins p1 p2 = CommandApdu cla ins p1 p2 0 0"

text \<open>The accessors. \<open>end\<close> and \<open>size\<close> are taken names, hence the suffix.\<close>

definition end_apdu :: "CommandApdu \<Rightarrow> nat" where
  "end_apdu c = length (mCommand c)"

definition dataBegin :: "CommandApdu \<Rightarrow> nat" where
  "dataBegin c = mDataBegin c"

definition dataEnd :: "CommandApdu \<Rightarrow> nat" where
  "dataEnd c = mDataEnd c"

definition size_apdu :: "CommandApdu \<Rightarrow> nat" where
  "size_apdu c = length (mCommand c)"

text \<open>
  \<open>std::distance\<close> is the signed difference of the two iterators; the return converts it
  to \<open>size_t\<close>, so a negative difference would wrap.
\<close>

definition dataSize :: "CommandApdu \<Rightarrow> nat" where
  "dataSize c = nat ((int (mDataEnd c) - int (mDataBegin c)) mod 2 ^ 64)"

definition vector :: "CommandApdu \<Rightarrow> uint8_t list" where
  "vector c = mCommand c"

subsection \<open>The caller's use of the data region\<close>

text \<open>
  The class leaves the data region to the caller, who copies the payload through the
  iterator \<open>dataBegin()\<close>. \<open>copy_to\<close> is that copy, one \<open>put\<close> for each byte, so a
  store outside the buffer is \<open>None\<close> here too. \<open>fillData\<close> applies it to a command and
  \<open>readData\<close> is the content of the range from \<open>dataBegin()\<close> up to \<open>dataEnd()\<close>.
\<close>

fun copy_to :: "uint8_t list \<Rightarrow> cursor \<Rightarrow> cursor option" where
  "copy_to [] s = Some s"
| "copy_to (v # vs) s = (case put v s of None \<Rightarrow> None | Some s' \<Rightarrow> copy_to vs s')"

definition fillData :: "uint8_t list \<Rightarrow> CommandApdu \<Rightarrow> CommandApdu option" where
  "fillData vs c = map_option (\<lambda>s. c\<lparr>mCommand := fst s\<rparr>) (copy_to vs (mCommand c, dataBegin c))"

definition range_of :: "nat \<Rightarrow> nat \<Rightarrow> uint8_t list \<Rightarrow> uint8_t list" where
  "range_of b e buf = take (e - b) (drop b buf)"

definition readData :: "CommandApdu \<Rightarrow> uint8_t list" where
  "readData c = range_of (dataBegin c) (dataEnd c) (mCommand c)"

section \<open>class ResponseApdu\<close>

text \<open>The view holds a reference to the caller's vector: every query takes \<open>mData\<close>.\<close>

definition STATUS_SIZE :: nat where
  "STATUS_SIZE = 2"

definition BYTES_AVAILABLE :: uint8_t where
  "BYTES_AVAILABLE = 0x61"

definition SW1_WARNING_NON_VOLATILE_MEMORY_UNCHANGED :: uint8_t where
  "SW1_WARNING_NON_VOLATILE_MEMORY_UNCHANGED = 0x62"

definition SW1_WARNING_NON_VOLATILE_MEMORY_CHANGED :: uint8_t where
  "SW1_WARNING_NON_VOLATILE_MEMORY_CHANGED = 0x63"

definition SW1_FIRST_EXECUTION_ERROR :: uint8_t where
  "SW1_FIRST_EXECUTION_ERROR = 0x64"

definition SW1_LAST_EXECUTION_ERROR :: uint8_t where
  "SW1_LAST_EXECUTION_ERROR = 0x66"

definition SW1_FIRST_CHECKING_ERROR :: uint8_t where
  "SW1_FIRST_CHECKING_ERROR = 0x67"

definition SW1_LAST_CHECKING_ERROR :: uint8_t where
  "SW1_LAST_CHECKING_ERROR = 0x6f"

definition ok :: "uint8_t list \<Rightarrow> bool" where
  "ok mData = (length mData \<ge> STATUS_SIZE)"

text \<open>
  \<open>*(std::end(mData) - k)\<close> reads \<open>k\<close> places before the end. With fewer than \<open>k\<close>
  bytes the read is undefined behaviour: \<open>None\<close>.
\<close>

definition sw1 :: "uint8_t list \<Rightarrow> uint8_t option" where
  "sw1 mData = (if 2 \<le> length mData then Some (mData ! (length mData - 2)) else None)"

definition sw2 :: "uint8_t list \<Rightarrow> uint8_t option" where
  "sw2 mData = (if 1 \<le> length mData then Some (mData ! (length mData - 1)) else None)"

text \<open>
  \<open>remainingBytes\<close> is declared to return \<open>int8_t\<close>: the \<open>uint8_t\<close> of \<open>sw2()\<close> is
  converted to the signed type, which keeps the eight bits. Callers read the result
  as a signed number, \<open>sint\<close>.
\<close>

definition remainingBytes :: "uint8_t list \<Rightarrow> int8_t option" where
  "remainingBytes mData = do {
     a \<leftarrow> sw1 mData;
     if a = BYTES_AVAILABLE then do { b \<leftarrow> sw2 mData; Some (ucast b) } else Some 0
   }"

definition isWarning :: "uint8_t list \<Rightarrow> bool option" where
  "isWarning mData = do {
     a \<leftarrow> sw1 mData;
     Some (a = SW1_WARNING_NON_VOLATILE_MEMORY_UNCHANGED
         \<or> a = SW1_WARNING_NON_VOLATILE_MEMORY_CHANGED)
   }"

definition isExecutionError :: "uint8_t list \<Rightarrow> bool option" where
  "isExecutionError mData = do {
     a \<leftarrow> sw1 mData;
     Some (a \<ge> SW1_FIRST_EXECUTION_ERROR \<and> a \<le> SW1_LAST_EXECUTION_ERROR)
   }"

definition isCheckingError :: "uint8_t list \<Rightarrow> bool option" where
  "isCheckingError mData = do {
     a \<leftarrow> sw1 mData;
     Some (a \<ge> SW1_FIRST_CHECKING_ERROR \<and> a \<le> SW1_LAST_CHECKING_ERROR)
   }"

text \<open>\<open>||\<close> evaluates its right operand only when the left one is false.\<close>

definition isError :: "uint8_t list \<Rightarrow> bool option" where
  "isError mData = do {
     x \<leftarrow> isExecutionError mData;
     if x then Some True else isCheckingError mData
   }"

section \<open>Reading a built command\<close>

text \<open>
  The wire layout of a built command, read back from the object. The header is the
  first four bytes. A command with data has a non-empty data range: its Lc field is
  what lies between the header and \<open>dataBegin()\<close>, its Le field is what follows
  \<open>dataEnd()\<close>. A command without data has the empty data range at the tail: it has
  no Lc field, and its Le field is what follows the header.
\<close>

definition lcField :: "CommandApdu \<Rightarrow> uint8_t list" where
  "lcField c = (if mDataBegin c = mDataEnd c then [] else range_of 4 (mDataBegin c) (mCommand c))"

definition leField :: "CommandApdu \<Rightarrow> uint8_t list" where
  "leField c =
     (if mDataBegin c = mDataEnd c then drop 4 (mCommand c) else drop (mDataEnd c) (mCommand c))"

text \<open>
  The bytes that \<open>writeLc\<close> and \<open>writeLe\<close> store, in the order of the stores. They
  serve the proofs below, which show that a built command is the header, these bytes
  for Lc, \<open>lc\<close> zero bytes and these bytes for Le.
\<close>

definition lcStored :: "size_t \<Rightarrow> size_t \<Rightarrow> uint8_t list" where
  "lcStored lc le =
     (if hasLc lc then
        (if extended lc le then [0, ucast (0xff AND drop_bit 8 lc)] else []) @ [ucast (0xff AND lc)]
      else [])"

definition leStored :: "size_t \<Rightarrow> size_t \<Rightarrow> uint8_t list" where
  "leStored lc le =
     (if hasLe le then
        (if extended lc le then
           (if \<not> hasLc lc then [0] else []) @
           [ucast (if le = extendedLeMax then 0 else 0xff AND drop_bit 8 le),
            ucast (if le = extendedLeMax then 0 else 0xff AND le)]
         else [ucast (if le = shortLeMax then 0 else 0xff AND le)])
      else [])"

section \<open>The locals of the constructor as numbers\<close>

lemmas ctor_consts = headerSize_def shortLcMax_def shortLeMax_def extendedLeMax_def

lemma hasLc_iff: "hasLc lc \<longleftrightarrow> 0 < unat lc"
  by (simp add: hasLc_def word_less_nat_alt)

lemma hasLe_iff: "hasLe le \<longleftrightarrow> 0 < unat le"
  by (simp add: hasLe_def word_less_nat_alt)

lemma extended_iff: "extended lc le \<longleftrightarrow> 255 < unat lc \<or> 256 < unat le"
  by (simp add: extended_def ctor_consts word_less_nat_alt)

lemma unat_lcSize:
  "unat (lcSize lc le) = (if unat lc = 0 then 0 else if 255 < unat lc \<or> 256 < unat le then 3 else 1)"
  by (simp add: lcSize_def hasLc_iff extended_iff)

lemma unat_leSize:
  "unat (leSize lc le) = (if unat le = 0 then 0 else if 255 < unat lc \<or> 256 < unat le
      then (if unat lc = 0 then 3 else 2) else 1)"
  by (simp add: leSize_def hasLc_iff hasLe_iff extended_iff)

lemma unat_commandSize:
  "unat (commandSize lc le) =
     (4 + unat (lcSize lc le) + unat lc + unat (leSize lc le)) mod 2 ^ 64"
  by (simp add: commandSize_def headerSize_def unat_word_ariths mod_simps)

section \<open>What the constructor builds\<close>

text \<open>Evaluation of the constructor at concrete arguments.\<close>

lemma zero_fill_numeral:
  "replicate (numeral k) (0 :: uint8_t) = 0 # replicate (pred_numeral k) 0"
  by (simp add: numeral_eq_Suc)

lemmas ctor_defs = zero_fill_numeral CommandApdu_def commandSize_def headerSize_def lcSize_def leSize_def
  hasLc_def hasLe_def extended_def shortLcMax_def shortLeMax_def extendedLeMax_def
  put_def writeLc_def writeLe_def advance_def

subsection \<open>The signed step\<close>

text \<open>
  Below \<open>2 ^ 63\<close> the conversion of \<open>lc\<close> to the difference type keeps its value and
  \<open>it += lc\<close> moves forward; from \<open>2 ^ 63\<close> on it is \<open>lc - 2 ^ 64\<close>, a step backwards.
\<close>

lemma sint_forward:
  fixes lc :: size_t
  assumes "unat lc < 2 ^ 63"
  shows "sint lc = int (unat lc)"
proof -
  have "uint lc < 2 ^ 63" using assms by (simp add: unat_eq_nat_uint del: nat_uint_eq)
  moreover have "- (2 ^ 63) \<le> uint lc" by (rule order_trans [of _ 0]) simp_all
  ultimately have "sint lc = uint lc"
    unfolding sint_uint by (simp add: signed_take_bit_int_eq_self)
  then show ?thesis by simp
qed

lemma mod_upper_half:
  fixes x H M :: int
  assumes "H \<le> x" and "x < M" and "M = 2 * H"
  shows "(x + H) mod M - H = x - M"
proof -
  have e: "x + H = (x - H) + M" using assms(3) by simp
  have "(x + H) mod M = (x - H) mod M"
    by (subst e) (rule mod_add_self2)
  also have "\<dots> = x - H"
    using assms by (intro mod_pos_pos_trivial) simp_all
  finally show ?thesis using assms(3) by simp
qed

lemma sint_backward:
  fixes lc :: size_t
  assumes "\<not> unat lc < 2 ^ 63"
  shows "sint lc = int (unat lc) - 2 ^ 64"
proof -
  have lo: "2 ^ 63 \<le> uint lc" using assms by (simp add: unat_eq_nat_uint del: nat_uint_eq)
  have hi: "uint lc < 2 ^ 64" using uint_lt2p [of lc] by simp
  have "sint lc = (uint lc + 2 ^ 63) mod 2 ^ 64 - 2 ^ 63"
    by (simp add: sint_uint signed_take_bit_eq_take_bit_shift take_bit_eq_mod)
  also have "\<dots> = uint lc - 2 ^ 64"
    using lo hi by (rule mod_upper_half) simp
  finally show ?thesis by simp
qed

lemma unat_max: "unat (- 1 :: size_t) = 18446744073709551615"
  by (simp add: unsigned_minus_1_eq_mask mask_eq_exp_minus_1)

lemma unat_max_pred: "unat (- 2 :: size_t) = 18446744073709551614"
proof -
  have "uint (- 2 :: size_t) = (- uint (2 :: size_t)) mod 2 ^ 64"
    by (simp only: uint_word_ariths len_of_numeral_defs) simp
  then show ?thesis by (simp add: unat_eq_nat_uint del: nat_uint_eq)
qed

lemma top_two:
  fixes lc :: size_t
  assumes "2 ^ 64 - 2 \<le> unat lc"
  shows "lc = - 1 \<or> lc = - 2"
proof -
  have "unat lc < 2 ^ 64" using unsigned_less [of lc, where 'a = nat] by simp
  with assms have "unat lc = 18446744073709551615 \<or> unat lc = 18446744073709551614"
    by simp arith
  then show ?thesis by (auto simp: word_unat_eq_iff unat_max unat_max_pred)
qed

subsection \<open>Stores on a buffer of known shape\<close>

lemma length_lcStored: "length (lcStored lc le) = unat (lcSize lc le)"
  by (simp add: lcStored_def lcSize_def)

lemma length_leStored: "length (leStored lc le) = unat (leSize lc le)"
  by (simp add: leStored_def leSize_def)

lemma put_here: "put v (pre @ x # post, length pre) = Some (pre @ v # post, Suc (length pre))"
  by (simp add: put_def)

lemma put_next:
  "put v (pre @ a # x # post, Suc (length pre)) = Some (pre @ a # v # post, Suc (Suc (length pre)))"
  using put_here [of v "pre @ [a]" x post] by simp

lemma put_next2:
  "put v (pre @ a # b # x # post, Suc (Suc (length pre)))
     = Some (pre @ a # b # v # post, Suc (Suc (Suc (length pre))))"
  using put_here [of v "pre @ [a, b]" x post] by simp

lemma replicate_2: "replicate 2 x = [x, x]"
  by (simp add: numeral_2_eq_2)

lemma replicate_3: "replicate 3 x = [x, x, x]"
  by (simp add: numeral_3_eq_3)

lemma writeLe_fresh:
  "writeLe lc le (pre @ replicate (unat (leSize lc le)) 0, length pre)
     = Some (pre @ leStored lc le, length pre + unat (leSize lc le))"
  by (simp add: writeLe_def leStored_def leSize_def put_here put_next put_next2
      replicate_2 replicate_3)

lemma advance_forward:
  "it + n \<le> length buf \<Longrightarrow> advance (int n) (buf, it) = Some (buf, it + n)"
  by (simp add: advance_def flip: of_nat_add)

lemma writeLc_fresh:
  assumes "unat lc < 2 ^ 63"
  shows "writeLc lc le
      (pre @ replicate (unat (lcSize lc le)) 0 @ replicate (unat lc) 0 @ post, length pre)
     = Some ((pre @ lcStored lc le @ replicate (unat lc) 0 @ post,
              length pre + unat (lcSize lc le) + unat lc),
             (if hasLc lc then length pre + unat (lcSize lc le) else length pre + length post),
             (if hasLc lc then length pre + unat (lcSize lc le) + unat lc
              else length pre + length post))"
  by (simp add: writeLc_def lcStored_def lcSize_def hasLc_iff advance_forward
      sint_forward [OF assms] put_here put_next put_next2 replicate_2 replicate_3
      del: of_nat_unat)

text \<open>
  With \<open>lc\<close> below \<open>2 ^ 63\<close> the constructor returns the header, the stored Lc bytes, \<open>lc\<close>
  zero bytes and the stored Le bytes, with the data range around the zero bytes.
\<close>

lemma forward_built:
  assumes "unat lc < 2 ^ 63"
  shows "CommandApdu cla ins p1 p2 lc le =
     Some \<lparr>mCommand = [cla, ins, p1, p2] @ lcStored lc le @ replicate (unat lc) 0 @ leStored lc le,
       mDataBegin = (if hasLc lc then 4 + unat (lcSize lc le)
                     else 4 + unat (leSize lc le)),
       mDataEnd = (if hasLc lc then 4 + unat (lcSize lc le) + unat lc
                   else 4 + unat (leSize lc le))\<rparr>"
proof -
  let ?a = "unat (lcSize lc le)" and ?n = "unat lc" and ?b = "unat (leSize lc le)"
  have "4 + ?a + ?n + ?b \<le> 4 + 3 + ?n + 3"
    by (intro add_mono) (simp_all add: unat_lcSize unat_leSize)
  with assms have "4 + ?a + ?n + ?b < 2 ^ 64" by simp
  then have n: "unat (commandSize lc le) = 4 + ?a + ?n + ?b"
    by (simp add: unat_commandSize)
  have buf: "replicate (unat (commandSize lc le)) (0::uint8_t) =
      [0, 0, 0, 0] @ replicate ?a 0 @ replicate ?n 0 @ replicate ?b 0"
    by (simp add: n replicate_add numeral_eq_Suc)
  show ?thesis
    unfolding CommandApdu_def buf
    using writeLc_fresh [OF assms, of le "[cla, ins, p1, p2]" "replicate ?b 0"]
      writeLe_fresh [of lc le "[cla, ins, p1, p2] @ lcStored lc le @ replicate (unat lc) 0"]
    by (simp add: put_def length_lcStored hasLc_iff)
qed

lemma in_range_forward:
  assumes "unat lc \<le> 65535"
  shows "unat lc < 2 ^ 63"
  using assms by simp

subsection \<open>The stored bytes as numbers\<close>

lemma mask_ff: "(0xff :: size_t) = mask 8"
  by (simp add: mask_eq_exp_minus_1)

lemma low_byte: "unat (ucast (0xff AND w :: size_t) :: uint8_t) = unat w mod 256"
  by (simp add: mask_ff and.commute [of "mask 8"] flip: take_bit_eq_mask)
    (simp add: unsigned_ucast_eq unsigned_take_bit_eq take_bit_eq_mod unat_mod_distrib)

lemma high_byte: "unat (ucast (0xff AND drop_bit 8 w :: size_t) :: uint8_t) = unat w div 256 mod 256"
  using low_byte [of "drop_bit 8 w"] by (simp add: drop_bit_eq_div unat_div_distrib)

lemma extendedLeMax_iff: "le = extendedLeMax \<longleftrightarrow> unat le = 65536"
  by (simp add: extendedLeMax_def word_unat_eq_iff)

lemma shortLeMax_iff: "le = shortLeMax \<longleftrightarrow> unat le = 256"
  by (simp add: shortLeMax_def word_unat_eq_iff)

lemma map_unat_lcStored:
  "map unat (lcStored lc le) =
     (if unat lc = 0 then []
      else if 255 < unat lc \<or> 256 < unat le then [0, unat lc div 256 mod 256, unat lc mod 256]
      else [unat lc mod 256])"
  by (simp add: lcStored_def hasLc_iff extended_iff low_byte drop_bit_eq_div unat_div_distrib)

lemma map_unat_leStored:
  "map unat (leStored lc le) =
     (if unat le = 0 then []
      else if 255 < unat lc \<or> 256 < unat le then
        (if unat lc = 0 then [0] else []) @
        (if unat le = 65536 then [0, 0] else [unat le div 256 mod 256, unat le mod 256])
      else [if unat le = 256 then 0 else unat le mod 256])"
  by (simp add: leStored_def hasLc_iff hasLe_iff extended_iff extendedLeMax_iff shortLeMax_iff
      low_byte drop_bit_eq_div unat_div_distrib)


subsection \<open>Which commands are built\<close>

text \<open>
  From \<open>2 ^ 63\<close> on, \<open>it += lc\<close> steps backwards. The step stays inside the buffer only
  for the two largest values of \<open>lc\<close>, where \<open>commandSize\<close> has wrapped around to 7 or 8
  bytes, and only with an Le field; for every other \<open>lc\<close> from \<open>2 ^ 63\<close> on the constructor
  leaves the buffer, so no command is built.
\<close>

lemma put_Some:
  assumes "put v s = Some s'"
  shows "length (fst s') = length (fst s)" and "snd s' = Suc (snd s)" and "snd s < length (fst s)"
  using assms by (auto simp: put_def split: prod.splits if_splits)

lemma advance_Some:
  assumes "advance d s = Some s'"
  shows "0 \<le> int (snd s) + d"
  using assms by (auto simp: advance_def split: prod.splits if_splits)

lemma writeLc_extended_Some:
  assumes "writeLc lc le s = Some r" and "hasLc lc" and "extended lc le"
  shows "snd s + 3 \<le> length (fst s)" and "0 \<le> int (snd s) + 3 + sint lc"
proof -
  from assms obtain t1 t2 t3 t4 where
    1: "put 0 s = Some t1" and 2: "put (ucast (0xff AND drop_bit 8 lc)) t1 = Some t2" and
    3: "put (ucast (0xff AND lc)) t2 = Some t3" and 4: "advance (sint lc) t3 = Some t4"
    by (auto simp: writeLc_def bind_eq_Some_conv)
  have t3: "snd t3 = snd s + 3" and "snd t2 < length (fst s)" and "snd t2 = snd s + 2"
    using put_Some [OF 1] put_Some [OF 2] put_Some [OF 3] by simp_all
  then show "snd s + 3 \<le> length (fst s)" by simp
  from advance_Some [OF 4] t3 show "0 \<le> int (snd s) + 3 + sint lc" by simp
qed

lemma built_backward_space:
  assumes "CommandApdu cla ins p1 p2 lc le = Some c" and "\<not> unat lc < 2 ^ 63"
  shows "7 \<le> unat (commandSize lc le)" and "2 ^ 64 \<le> 7 + unat lc"
proof -
  have big: "2 ^ 63 \<le> unat lc" using assms(2) by simp
  have gt: "255 < unat lc" by (rule less_le_trans [OF _ big]) simp
  then have lc: "hasLc lc" and ext: "extended lc le"
    by (simp_all add: hasLc_iff extended_iff)
  from assms(1) obtain s1 s2 s3 s4 r where
    1: "put cla (replicate (unat (commandSize lc le)) 0, 0) = Some s1" and
    2: "put ins s1 = Some s2" and 3: "put p1 s2 = Some s3" and 4: "put p2 s3 = Some s4" and
    5: "writeLc lc le s4 = Some r"
    by (auto simp: CommandApdu_def bind_eq_Some_conv)
  have s4: "snd s4 = 4" "length (fst s4) = unat (commandSize lc le)"
    using put_Some [OF 1] put_Some [OF 2] put_Some [OF 3] put_Some [OF 4] by simp_all
  from writeLc_extended_Some(1) [OF 5 lc ext] s4
  show "7 \<le> unat (commandSize lc le)" by simp
  from writeLc_extended_Some(2) [OF 5 lc ext] s4
  have "0 \<le> 7 + sint lc" by simp
  then have "0 \<le> 7 + (int (unat lc) - 2 ^ 64)"
    by (simp only: sint_backward [OF assms(2)])
  moreover define M :: nat where "M = 2 ^ 64"
  moreover have M: "(2 :: int) ^ 64 = int M" by (simp add: M_def)
  ultimately have "0 \<le> 7 + (int (unat lc) - int M)" by (simp only:)
  then have "M \<le> 7 + unat lc" by arith
  then show "2 ^ 64 \<le> 7 + unat lc" by (simp only: M_def)
qed

lemma wrapped_room:
  fixes n b M :: nat
  assumes "M \<le> 7 + n" and "n < M" and "7 \<le> (7 + n + b) mod M" and "b \<le> 3" and "10 < M"
  shows "M \<le> n + b"
proof -
  have "(7 + n + b) mod M = (7 + n + b - M) mod M"
    using assms(1) by (simp add: le_mod_geq)
  also have "\<dots> = 7 + n + b - M"
    using assms by (intro mod_less) arith
  finally show ?thesis using assms by arith
qed

lemma built_cases:
  assumes "CommandApdu cla ins p1 p2 lc le = Some c"
  shows "unat lc < 2 ^ 63 \<or> ((lc = - 1 \<or> lc = - 2) \<and> le \<noteq> 0)"
proof (cases "unat lc < 2 ^ 63")
  case True
  then show ?thesis by simp
next
  case False
  define M :: nat where "M = 2 ^ 64"
  let ?b = "unat (leSize lc le)"
  have M: "10 < M" by (simp add: M_def)
  have n: "unat lc < M"
    unfolding M_def using unsigned_less [of lc, where 'a = nat] by simp
  have sp: "7 \<le> unat (commandSize lc le)" "M \<le> 7 + unat lc"
    using built_backward_space [OF assms False] by (simp_all only: M_def)
  have big: "2 ^ 63 \<le> unat lc" using False by simp
  have gt: "255 < unat lc" by (rule less_le_trans [OF _ big]) simp
  have a: "unat (lcSize lc le) = 3" using gt by (simp add: unat_lcSize)
  have b: "?b = (if unat le = 0 then 0 else 2)" using gt by (simp add: unat_leSize)
  have "unat (commandSize lc le) = (4 + 3 + unat lc + ?b) mod M"
    unfolding M_def using unat_commandSize [of lc le] by (simp only: a)
  with sp(1) have "7 \<le> (7 + unat lc + ?b) mod M" by simp
  from wrapped_room [OF sp(2) n this _ M] b have room: "M \<le> unat lc + ?b"
    by (simp split: if_splits)
  with n b have le: "unat le \<noteq> 0" and "M \<le> unat lc + 2"
    by (simp_all split: if_splits)
  then have "M - 2 \<le> unat lc" by arith
  then have "2 ^ 64 - 2 \<le> unat lc" by (simp only: M_def)
  from top_two [OF this] le show ?thesis by (simp add: unat_eq_zero)
qed

text \<open>
  The two commands built with a backward step. The Le field is stored from the new
  position of \<open>it\<close>, over the end of the Lc field.
\<close>

lemma leStored_backward:
  assumes "le \<noteq> 0" and "lc = - 1 \<or> lc = - 2"
  shows "leStored lc le =
      [ucast (if le = extendedLeMax then 0 else 0xff AND drop_bit 8 le),
       ucast (if le = extendedLeMax then 0 else 0xff AND le)]"
  using assms
  by (auto simp: leStored_def hasLc_iff hasLe_iff extended_iff unat_max unat_max_pred unat_gt_0)

lemma max_bytes:
  "ucast (0xff AND drop_bit 8 (- 1 :: size_t)) = (0xFF :: uint8_t)"
  "ucast (0xff AND (- 1 :: size_t)) = (0xFF :: uint8_t)"
  by (simp_all add: word_unat_eq_iff low_byte unat_max drop_bit_eq_div unat_div_distrib
      del: drop_bit_minus_one)

lemma max_high_byte: "ucast (0xff AND mask 56 :: size_t) = (0xFF :: uint8_t)"
  using max_bytes(1) by simp

lemma backward_built_max:
  assumes "le \<noteq> 0"
  shows "CommandApdu cla ins p1 p2 (- 1) le =
     Some \<lparr>mCommand = [cla, ins, p1, p2, 0, 0xFF] @ leStored (- 1) le,
       mDataBegin = 7, mDataEnd = 6\<rparr>"
proof -
  have le: "hasLe le" using assms by (simp add: hasLe_iff unat_gt_0)
  have lc: "hasLc (- 1)" by (simp add: hasLc_iff unat_max)
  have ext: "extended (- 1) le" by (simp add: extended_iff unat_max)
  have size: "unat (commandSize (- 1) le) = 8"
    by (simp add: commandSize_def headerSize_def lcSize_def leSize_def le lc ext)
  show ?thesis
    unfolding leStored_backward [OF assms, of "- 1", simplified]
    by (simp add: CommandApdu_def size writeLc_def writeLe_def le lc ext put_def advance_def
        zero_fill_numeral max_high_byte)
qed

lemma backward_built_max_pred:
  assumes "le \<noteq> 0"
  shows "CommandApdu cla ins p1 p2 (- 2) le =
     Some \<lparr>mCommand = [cla, ins, p1, p2, 0] @ leStored (- 2) le,
       mDataBegin = 7, mDataEnd = 5\<rparr>"
proof -
  have le: "hasLe le" using assms by (simp add: hasLe_iff unat_gt_0)
  have lc: "hasLc (- 2)" by (simp add: hasLc_iff unat_max_pred)
  have ext: "extended (- 2) le" by (simp add: extended_iff unat_max_pred)
  have size: "unat (commandSize (- 2) le) = 7"
    by (simp add: commandSize_def headerSize_def lcSize_def leSize_def le lc ext)
  show ?thesis
    unfolding leStored_backward [OF assms, of "- 2", simplified]
    by (simp add: CommandApdu_def size writeLc_def writeLe_def le lc ext put_def advance_def
        zero_fill_numeral)
qed

subsection \<open>The fields of a built command\<close>

lemma built_layout:
  assumes "CommandApdu cla ins p1 p2 lc le = Some c" and "unat lc < 2 ^ 63"
  shows "c = \<lparr>mCommand = [cla, ins, p1, p2] @ lcStored lc le @ replicate (unat lc) 0 @ leStored lc le,
       mDataBegin = (if hasLc lc then 4 + unat (lcSize lc le)
                     else 4 + unat (leSize lc le)),
       mDataEnd = (if hasLc lc then 4 + unat (lcSize lc le) + unat lc
                   else 4 + unat (leSize lc le))\<rparr>"
  using forward_built [OF assms(2), of cla ins p1 p2 le] assms(1) by simp

lemma drop_layout:
  "length H = 4 \<Longrightarrow> length L = a \<Longrightarrow> length D = n \<Longrightarrow> drop (4 + a + n) (H @ L @ D @ E) = E"
  by simp

lemma range_layout:
  "length H = 4 \<Longrightarrow> length L = a \<Longrightarrow> range_of 4 (4 + a) (H @ L @ R) = L"
  by (simp add: range_of_def)

lemma built_lcField:
  assumes "CommandApdu cla ins p1 p2 lc le = Some c" and "unat lc < 2 ^ 63"
  shows "lcField c = lcStored lc le"
proof (cases "hasLc lc")
  case True
  then have "mDataBegin c \<noteq> mDataEnd c"
    by (simp add: built_layout [OF assms] hasLc_iff)
  moreover have "range_of 4 (mDataBegin c) (mCommand c) = lcStored lc le"
    using True range_layout [of "[cla, ins, p1, p2]" "lcStored lc le" "unat (lcSize lc le)"]
    by (simp add: built_layout [OF assms] length_lcStored)
  ultimately show ?thesis by (simp add: lcField_def)
next
  case False
  then show ?thesis
    by (simp add: built_layout [OF assms] lcField_def lcStored_def)
qed

lemma forward_leField:
  assumes "CommandApdu cla ins p1 p2 lc le = Some c" and "unat lc < 2 ^ 63"
  shows "leField c = leStored lc le"
proof (cases "hasLc lc")
  case True
  then have "mDataBegin c \<noteq> mDataEnd c"
    by (simp add: built_layout [OF assms] hasLc_iff)
  moreover have "drop (mDataEnd c) (mCommand c) = leStored lc le"
    using True drop_layout [of "[cla, ins, p1, p2]" "lcStored lc le" "unat (lcSize lc le)"
        "replicate (unat lc) 0" "unat lc" "leStored lc le"]
    by (simp add: built_layout [OF assms] length_lcStored)
  ultimately show ?thesis by (simp add: leField_def)
next
  case False
  then have "unat lc = 0" by (simp add: hasLc_iff)
  with False show ?thesis
    by (simp add: built_layout [OF assms] leField_def lcStored_def)
qed

lemma backward_fields:
  assumes "CommandApdu cla ins p1 p2 lc le = Some c" and "lc = - 1 \<or> lc = - 2" and "le \<noteq> 0"
  shows "leField c = leStored lc le" and "length (lcField c) = 3" and "hd (lcField c) = 0"
proof -
  from assms(2) have "leField c = leStored lc le \<and> length (lcField c) = 3 \<and> hd (lcField c) = 0"
  proof
    assume lc: "lc = - 1"
    from assms(1) backward_built_max [OF assms(3), of cla ins p1 p2]
    have c: "c = \<lparr>mCommand = [cla, ins, p1, p2, 0, 0xFF] @ leStored (- 1) le,
       mDataBegin = 7, mDataEnd = 6\<rparr>" by (simp add: lc)
    show ?thesis
      unfolding c lc leStored_backward [OF assms(3), of "- 1", simplified]
      by (simp add: leField_def lcField_def range_of_def)
  next
    assume lc: "lc = - 2"
    from assms(1) backward_built_max_pred [OF assms(3), of cla ins p1 p2]
    have c: "c = \<lparr>mCommand = [cla, ins, p1, p2, 0] @ leStored (- 2) le,
       mDataBegin = 7, mDataEnd = 5\<rparr>" by (simp add: lc)
    show ?thesis
      unfolding c lc leStored_backward [OF assms(3), of "- 2", simplified]
      by (simp add: leField_def lcField_def range_of_def)
  qed
  then show "leField c = leStored lc le" and "length (lcField c) = 3" and "hd (lcField c) = 0"
    by simp_all
qed

lemma built_leField:
  assumes "CommandApdu cla ins p1 p2 lc le = Some c"
  shows "leField c = leStored lc le"
  using built_cases [OF assms] forward_leField [OF assms] backward_fields(1) [OF assms]
  by blast


lemma built_size:
  assumes "CommandApdu cla ins p1 p2 lc le = Some c" and "unat lc < 2 ^ 63"
  shows "size_apdu c = 4 + unat (lcSize lc le) + unat lc + unat (leSize lc le)"
  unfolding built_layout [OF assms]
  by (simp add: size_apdu_def length_lcStored length_leStored)

subsection \<open>Copying into the data region\<close>

lemma copy_to_region:
  "length xs = length vs \<Longrightarrow>
     copy_to vs (pre @ xs @ post, length pre) = Some (pre @ vs @ post, length pre + length vs)"
proof (induction vs arbitrary: pre xs)
  case Nil
  then show ?case by simp
next
  case (Cons v vs)
  then obtain x xs' where xs: "xs = x # xs'" and len: "length xs' = length vs"
    by (cases xs) auto
  have "put v (pre @ xs @ post, length pre) = Some ((pre @ [v]) @ xs' @ post, length (pre @ [v]))"
    using put_here [of v pre x "xs' @ post"] by (simp add: xs)
  moreover have "copy_to vs ((pre @ [v]) @ xs' @ post, length (pre @ [v])) =
      Some ((pre @ [v]) @ vs @ post, length (pre @ [v]) + length vs)"
    by (rule Cons.IH [OF len])
  ultimately show ?case by simp
qed

lemma range_of_middle:
  "range_of (length pre) (length pre + length vs) (pre @ vs @ post) = vs"
  by (simp add: range_of_def)

section \<open>Properties of the command builder\<close>

text \<open>
  Claim C1. For every command built with lengths Lc from 0 to 65535 and Le from 0 to
  65536, the total encoded length \<open>size()\<close> is 4 + (Lc-field size) + Lc + (Le-field
  size): the Lc-field size is 0 if Lc = 0, else 1 in short form and 3 in extended
  form; the Le-field size is 0 if Le = 0, else 1 in short form, 2 in extended form
  with an Lc field, 3 in extended form without one. Extended form is Lc > 255 or
  Le > 256. The constructor returns a command for each of these lengths.
\<close>

theorem total_length:
  assumes "unat lc \<le> 65535" and "unat le \<le> 65536"
  shows "map_option size_apdu (CommandApdu cla ins p1 p2 lc le) =
    Some (4 + (if unat lc = 0 then 0 else if 255 < unat lc \<or> 256 < unat le then 3 else 1)
            + unat lc
            + (if unat le = 0 then 0
               else if 255 < unat lc \<or> 256 < unat le then (if unat lc = 0 then 3 else 2)
               else 1))"
proof -
  have fwd: "unat lc < 2 ^ 63" using assms(1) by (rule in_range_forward)
  from forward_built [OF fwd]
  obtain c where c: "CommandApdu cla ins p1 p2 lc le = Some c" by blast
  show ?thesis
    unfolding c using built_size [OF c fwd] by (simp add: unat_lcSize unat_leSize)
qed

theorem total_length_witness:
  "unat (300 :: size_t) \<le> 65535 \<and> unat (65536 :: size_t) \<le> 65536 \<and>
   map_option size_apdu (CommandApdu 0x00 0xA4 0x04 0x00 300 65536) = Some 309"
  using total_length [of 300 65536 "0x00" "0xA4" "0x04" "0x00"] by simp




text \<open>
  Claim C4. The command built with class 0x00, instruction 0xA4, parameters 0x04 and
  0x00, Lc = 2 and Le = 256, with the bytes 0x3F, 0x00 copied into the data region, is
  the byte sequence 00 A4 04 00 02 3F 00 00: the short Le of 256 is the byte 0x00.
\<close>

theorem select_example:
  "map_option vector (CommandApdu 0x00 0xA4 0x04 0x00 2 256 \<bind> fillData [0x3F, 0x00]) =
     Some [0x00, 0xA4, 0x04, 0x00, 0x02, 0x3F, 0x00, 0x00]"
  by (simp add: ctor_defs fillData_def dataBegin_def vector_def)

text \<open>
  Claim C5, with the bound the code needs. For every command built with
  0 < Le \<le> 65536, the Le field, read as numbers, is: in extended form the 0x00 filler
  exactly when there is no Lc field, then the high and the low byte of Le, and 0x00 0x00
  for Le = 65536; in short form the one byte Le, and 0x00 for Le = 256. So with Lc = 0 and
  0 < Le \<le> 256 the command has five bytes and its last byte is Le mod 256.
\<close>

theorem le_field_encoding:
  assumes "CommandApdu cla ins p1 p2 lc le = Some c" and "0 < unat le" and "unat le \<le> 65536"
  shows "map unat (leField c) =
      (if 255 < unat lc \<or> 256 < unat le then
         (if unat lc = 0 then [0] else []) @
         (if unat le = 65536 then [0, 0] else [unat le div 256, unat le mod 256])
       else [if unat le = 256 then 0 else unat le])
    \<and> (unat lc = 0 \<and> unat le \<le> 256 \<longrightarrow>
         size_apdu c = 5 \<and> unat (last (mCommand c)) = unat le mod 256)"
proof -
  have hi: "unat le div 256 mod 256 = unat le div 256" if "unat le \<noteq> 65536"
    using that assms(3) by simp
  have lo: "unat le mod 256 = unat le" if "\<not> 256 < unat le" "unat le \<noteq> 256"
    using that by simp
  have 1: "map unat (leField c) =
      (if 255 < unat lc \<or> 256 < unat le then
         (if unat lc = 0 then [0] else []) @
         (if unat le = 65536 then [0, 0] else [unat le div 256, unat le mod 256])
       else [if unat le = 256 then 0 else unat le])"
    using assms(2) hi lo
    by (simp add: built_leField [OF assms(1)] map_unat_leStored)
  have 2: "size_apdu c = 5 \<and> unat (last (mCommand c)) = unat le mod 256"
    if "unat lc = 0" "unat le \<le> 256"
  proof -
    have "mCommand c = [cla, ins, p1, p2] @ leStored lc le"
      using that by (simp add: built_layout [OF assms(1)] lcStored_def hasLc_iff)
    moreover have "map unat (leStored lc le) = [unat le mod 256]"
      using that assms(2) by (simp add: map_unat_leStored)
    then obtain b where "leStored lc le = [b]" and "unat b = unat le mod 256"
      by auto
    ultimately show ?thesis by (simp add: size_apdu_def)
  qed
  from 1 2 show ?thesis by blast
qed

theorem le_field_encoding_witness:
  "CommandApdu 0x00 0xB0 0x00 0x00 0 256 =
     Some \<lparr>mCommand = [0x00, 0xB0, 0x00, 0x00, 0x00], mDataBegin = 5, mDataEnd = 5\<rparr>
   \<and> 0 < unat (256 :: size_t) \<and> unat (256 :: size_t) \<le> 65536
   \<and> map unat (leField \<lparr>mCommand = [0x00, 0xB0, 0x00, 0x00, 0x00], mDataBegin = 5, mDataEnd = 5\<rparr>) = [0]
   \<and> size_apdu \<lparr>mCommand = [0x00, 0xB0, 0x00, 0x00, 0x00], mDataBegin = 5, mDataEnd = 5\<rparr> = 5"
proof -
  have built: "CommandApdu 0x00 0xB0 0x00 0x00 0 256 =
     Some \<lparr>mCommand = [0x00, 0xB0, 0x00, 0x00, 0x00], mDataBegin = 5, mDataEnd = 5\<rparr>"
    by (simp add: ctor_defs)
  from le_field_encoding [OF built] built show ?thesis by simp
qed

text \<open>
  Without the bound the statement of C5 fails: the constructor does not check Le, and
  for Le = 65537 (no data) it stores 00 00 01, the filler and the low sixteen bits of
  Le, where the two-byte value of Le would need a high byte of 256.
\<close>

theorem le_field_unbounded_counterexample:
  "map_option (map unat \<circ> leField) (CommandApdu 0x00 0xB0 0x00 0x00 0 65537) = Some [0, 0, 1]
   \<and> [0, 0, 1] \<noteq> [0] @ [65537 div 256, 65537 mod (256 :: nat)]"
  by (simp add: ctor_defs leField_def)

text \<open>
  Claim C6, with the bound the code needs. For every command built with
  255 < Lc \<le> 65535 the extended form is used and the Lc field is the 0x00 filler, then
  the high and the low byte of Lc; it lies at offsets 4 to 6, and the data region starts
  at offset 7. For Lc = 300 the field is 00 01 2C, whatever the other arguments.
\<close>

theorem lc_field_extended:
  assumes "CommandApdu cla ins p1 p2 lc le = Some c" and "255 < unat lc" and "unat lc \<le> 65535"
  shows "extended lc le
    \<and> map unat (lcField c) = [0, unat lc div 256, unat lc mod 256]
    \<and> lcField c = range_of 4 7 (mCommand c)
    \<and> dataBegin c = 7
    \<and> map_option lcField (CommandApdu cla ins p1 p2 300 le) = Some [0x00, 0x01, 0x2C]
    \<and> map_option (range_of 4 7 \<circ> vector) (CommandApdu cla ins p1 p2 300 le) = Some [0x00, 0x01, 0x2C]"
proof -
  have fwd: "unat lc < 2 ^ 63" using assms(3) by (rule in_range_forward)
  have 1: "extended lc le" using assms(2) by (simp add: extended_iff)
  have 2: "map unat (lcField c) = [0, unat lc div 256, unat lc mod 256]"
    using assms(2,3) by (simp add: built_lcField [OF assms(1) fwd] map_unat_lcStored)
  have b: "mDataBegin c = 7" and ne: "mDataBegin c \<noteq> mDataEnd c"
    using assms(2) by (simp_all add: built_layout [OF assms(1) fwd] hasLc_iff unat_lcSize)
  have 3: "lcField c = range_of 4 7 (mCommand c)" using b ne by (simp add: lcField_def)
  have 4: "dataBegin c = 7" using b by (simp add: dataBegin_def)
  have fwd': "unat (300 :: size_t) < 2 ^ 63" by simp
  from forward_built [OF fwd', of cla ins p1 p2 le]
  obtain d where d: "CommandApdu cla ins p1 p2 300 le = Some d" by blast
  have ext: "extended 300 le" by (simp add: extended_iff)
  have 5: "lcField d = [0x00, 0x01, 0x2C]"
    by (simp add: built_lcField [OF d fwd'] lcStored_def hasLc_iff ext)
  have "mDataBegin d = 7" and "mDataBegin d \<noteq> mDataEnd d"
    by (simp_all add: built_layout [OF d fwd'] hasLc_iff unat_lcSize)
  then have 6: "range_of 4 7 (vector d) = lcField d" by (simp add: lcField_def vector_def)
  have 7: "map_option lcField (CommandApdu cla ins p1 p2 300 le) = Some [0x00, 0x01, 0x2C]"
    by (simp only: d option.map 5)
  have 8: "map_option (range_of 4 7 \<circ> vector) (CommandApdu cla ins p1 p2 300 le) = Some [0x00, 0x01, 0x2C]"
    by (simp only: d option.map o_apply 6 5)
  show ?thesis by (intro conjI 1 2 3 4 7 8)
qed

theorem lc_field_extended_witness:
  "CommandApdu 0x00 0xD6 0x00 0x00 300 0 =
     Some \<lparr>mCommand = [0x00, 0xD6, 0x00, 0x00, 0x00, 0x01, 0x2C] @ replicate 300 0,
           mDataBegin = 7, mDataEnd = 307\<rparr>
   \<and> 255 < unat (300 :: size_t) \<and> unat (300 :: size_t) \<le> 65535
   \<and> map unat (lcField \<lparr>mCommand = [0x00, 0xD6, 0x00, 0x00, 0x00, 0x01, 0x2C] @ replicate 300 0,
           mDataBegin = 7, mDataEnd = 307\<rparr>) = [0, 1, 44]"
proof -
  have "unat (300 :: size_t) < 2 ^ 63" by simp
  from forward_built [OF this, of "0x00" "0xD6" "0x00" "0x00" 0]
  have built: "CommandApdu 0x00 0xD6 0x00 0x00 300 0 =
     Some \<lparr>mCommand = [0x00, 0xD6, 0x00, 0x00, 0x00, 0x01, 0x2C] @ replicate 300 0,
           mDataBegin = 7, mDataEnd = 307\<rparr>"
    by (simp add: lcStored_def leStored_def lcSize_def leSize_def hasLc_def hasLe_def
        extended_def shortLcMax_def shortLeMax_def)
  have w1: "255 < unat (300 :: size_t)" and w2: "unat (300 :: size_t) \<le> 65535"
    by simp_all
  from lc_field_extended [OF built w1 w2, THEN conjunct2, THEN conjunct1]
  have "map unat (lcField \<lparr>mCommand = [0x00, 0xD6, 0x00, 0x00, 0x00, 0x01, 0x2C] @ replicate 300 0,
           mDataBegin = 7, mDataEnd = 307\<rparr>) = [0, 1, 44]"
    by simp
  then show ?thesis by (intro conjI built w1 w2)
qed

text \<open>
  Without the bound the statement of C6 fails: the constructor does not check Lc, and
  for Lc = 65536 it stores 00 00 00, where the two-byte value of Lc would need a high
  byte of 256.
\<close>

theorem lc_field_unbounded_counterexample:
  "map_option (map unat \<circ> lcField) (CommandApdu 0x00 0xD6 0x00 0x00 65536 0) = Some [0, 0, 0]
   \<and> [0, 0, 0] \<noteq> [0, 65536 div 256, 65536 mod (256 :: nat)]"
proof -
  have fwd: "unat (65536 :: size_t) < 2 ^ 63" by simp
  from forward_built [OF fwd, of "0x00" "0xD6" "0x00" "0x00" 0]
  obtain c where c: "CommandApdu 0x00 0xD6 0x00 0x00 65536 0 = Some c" by blast
  have "map unat (lcField c) = [0, 0, 0]"
    by (simp add: built_lcField [OF c fwd] map_unat_lcStored)
  then have 1: "map_option (map unat \<circ> lcField) (CommandApdu 0x00 0xD6 0x00 0x00 65536 0) = Some [0, 0, 0]"
    by (simp only: c option.map o_apply)
  have 2: "[0, 0, 0] \<noteq> [0, 65536 div 256, 65536 mod (256 :: nat)]" by simp
  from 1 2 show ?thesis by (rule conjI)
qed

text \<open>
  Claim C7, with the bound the code needs. For every command built with a length Lc
  below \<open>2 ^ 63\<close>, which \<open>it += lc\<close> takes as a step forwards, the data region from
  \<open>dataBegin()\<close> to \<open>dataEnd()\<close> has exactly Lc bytes, \<open>dataSize()\<close> is Lc, and the
  region lies inside the buffer; copying any Lc bytes into the region and reading the
  region back gives those bytes; and for Lc = 0 \<open>dataBegin()\<close>, \<open>dataEnd()\<close> and
  \<open>end()\<close> coincide. The bound covers every length of the wire format, 0 to 65535.
\<close>

theorem data_region_round_trip:
  assumes "CommandApdu cla ins p1 p2 lc le = Some c" and "unat lc < 2 ^ 63"
    and "length vs = unat lc"
  shows "dataSize c = unat lc
    \<and> dataEnd c = dataBegin c + unat lc
    \<and> dataEnd c \<le> end_apdu c
    \<and> length (readData c) = unat lc
    \<and> map_option readData (fillData vs c) = Some vs
    \<and> (unat lc = 0 \<longrightarrow> dataBegin c = end_apdu c \<and> dataEnd c = end_apdu c)"
proof -
  let ?pre = "[cla, ins, p1, p2] @ lcStored lc le"
  let ?post = "leStored lc le"
  have cmd: "mCommand c = ?pre @ replicate (unat lc) 0 @ ?post"
    by (simp add: built_layout [OF assms(1,2)])
  have pre: "length ?pre = 4 + unat (lcSize lc le)"
    by (simp add: length_lcStored)
  have zero: "unat lc = 0 \<Longrightarrow> unat (lcSize lc le) = 0"
    by (simp add: unat_lcSize)
  have b: "mDataBegin c = (if unat lc = 0 then length (mCommand c) else length ?pre)"
    by (simp add: built_layout [OF assms(1,2)] hasLc_iff length_lcStored length_leStored zero)
  have e: "mDataEnd c = mDataBegin c + unat lc"
    by (simp add: built_layout [OF assms(1,2)] hasLc_iff)
  have 1: "dataSize c = unat lc"
  proof -
    have "uint lc < 2 ^ 64" using uint_lt2p [of lc] by simp
    then have "uint lc mod 2 ^ 64 = uint lc" by (intro mod_pos_pos_trivial) simp_all
    then show ?thesis by (simp add: dataSize_def e)
  qed
  have 2: "dataEnd c = dataBegin c + unat lc"
    by (simp add: dataEnd_def dataBegin_def e)
  have 3: "dataEnd c \<le> end_apdu c"
    unfolding dataEnd_def end_apdu_def e b by (simp add: cmd)
  have 4: "length (readData c) = unat lc"
    unfolding readData_def dataEnd_def dataBegin_def range_of_def e b by (simp add: cmd)
  have 5: "map_option readData (fillData vs c) = Some vs"
  proof (cases "unat lc = 0")
    case True
    with assms(3) have "vs = []" by simp
    with True show ?thesis
      by (simp add: fillData_def readData_def range_of_def dataBegin_def dataEnd_def e)
  next
    case False
    then have b': "dataBegin c = length ?pre" by (simp add: dataBegin_def b)
    have "copy_to vs (mCommand c, dataBegin c) = Some (?pre @ vs @ ?post, length ?pre + length vs)"
      unfolding cmd b' by (rule copy_to_region) (simp add: assms(3))
    then have "fillData vs c = Some (c\<lparr>mCommand := ?pre @ vs @ ?post\<rparr>)"
      by (simp add: fillData_def)
    moreover have "readData (c\<lparr>mCommand := ?pre @ vs @ ?post\<rparr>) = vs"
      using range_of_middle [of ?pre vs ?post] False
      by (simp add: readData_def dataBegin_def dataEnd_def e b assms(3))
    ultimately show ?thesis by simp
  qed
  have 6: "unat lc = 0 \<longrightarrow> dataBegin c = end_apdu c \<and> dataEnd c = end_apdu c"
    by (simp add: dataBegin_def dataEnd_def end_apdu_def e b)
  show ?thesis by (intro conjI 1 2 3 4 5 6)
qed

theorem data_region_round_trip_witness:
  "CommandApdu 0x00 0xA4 0x04 0x00 2 256 =
     Some \<lparr>mCommand = [0x00, 0xA4, 0x04, 0x00, 0x02, 0x00, 0x00, 0x00], mDataBegin = 5, mDataEnd = 7\<rparr>
   \<and> unat (2 :: size_t) < 2 ^ 63
   \<and> length [0x3F, 0x00 :: uint8_t] = unat (2 :: size_t)
   \<and> dataSize \<lparr>mCommand = [0x00, 0xA4, 0x04, 0x00, 0x02, 0x00, 0x00, 0x00], mDataBegin = 5, mDataEnd = 7\<rparr> = 2
   \<and> map_option readData (fillData [0x3F, 0x00]
         \<lparr>mCommand = [0x00, 0xA4, 0x04, 0x00, 0x02, 0x00, 0x00, 0x00], mDataBegin = 5, mDataEnd = 7\<rparr>)
       = Some [0x3F, 0x00]"
proof -
  have built: "CommandApdu 0x00 0xA4 0x04 0x00 2 256 =
     Some \<lparr>mCommand = [0x00, 0xA4, 0x04, 0x00, 0x02, 0x00, 0x00, 0x00], mDataBegin = 5, mDataEnd = 7\<rparr>"
    by (simp add: ctor_defs)
  have fwd: "unat (2 :: size_t) < 2 ^ 63" by simp
  have len: "length [0x3F, 0x00 :: uint8_t] = unat (2 :: size_t)" by simp
  from data_region_round_trip [OF built fwd len] built fwd len show ?thesis by simp
qed

text \<open>
  Without the bound the statement of C7 fails. The constructor does not check Lc: for
  Lc = \<open>2 ^ 64 - 1\<close> and Le = 1 the buffer has 8 bytes, \<open>it += lc\<close> steps back by one, and
  the command is returned with \<open>dataEnd()\<close> before \<open>dataBegin()\<close>: the data region is
  empty, not Lc bytes long.
\<close>

theorem data_region_backward_counterexample:
  "CommandApdu 0x00 0xA4 0x04 0x00 0xFFFFFFFFFFFFFFFF 1 =
     Some \<lparr>mCommand = [0x00, 0xA4, 0x04, 0x00, 0x00, 0xFF, 0x00, 0x01],
           mDataBegin = 7, mDataEnd = 6\<rparr>
   \<and> dataEnd \<lparr>mCommand = [0x00, 0xA4, 0x04, 0x00, 0x00, 0xFF, 0x00, 0x01],
           mDataBegin = 7, mDataEnd = 6\<rparr>
       < dataBegin \<lparr>mCommand = [0x00, 0xA4, 0x04, 0x00, 0x00, 0xFF, 0x00, 0x01],
           mDataBegin = 7, mDataEnd = 6\<rparr>
   \<and> readData \<lparr>mCommand = [0x00, 0xA4, 0x04, 0x00, 0x00, 0xFF, 0x00, 0x01],
           mDataBegin = 7, mDataEnd = 6\<rparr> = []
   \<and> length (readData \<lparr>mCommand = [0x00, 0xA4, 0x04, 0x00, 0x00, 0xFF, 0x00, 0x01],
           mDataBegin = 7, mDataEnd = 6\<rparr>) \<noteq> unat (0xFFFFFFFFFFFFFFFF :: size_t)"
proof -
  have max: "(0xFFFFFFFFFFFFFFFF :: size_t) = - 1" by simp
  have "(1 :: size_t) \<noteq> 0" by simp
  from backward_built_max [OF this, of "0x00" "0xA4" "0x04" "0x00"]
  have built: "CommandApdu 0x00 0xA4 0x04 0x00 0xFFFFFFFFFFFFFFFF 1 =
     Some \<lparr>mCommand = [0x00, 0xA4, 0x04, 0x00, 0x00, 0xFF, 0x00, 0x01],
           mDataBegin = 7, mDataEnd = 6\<rparr>"
    unfolding max
    by (simp add: leStored_def hasLc_iff hasLe_iff extended_iff unat_max extendedLeMax_def)
  have order: "dataEnd \<lparr>mCommand = [0x00, 0xA4, 0x04, 0x00, 0x00, 0xFF, 0x00, 0x01],
           mDataBegin = 7, mDataEnd = 6\<rparr>
       < dataBegin \<lparr>mCommand = [0x00, 0xA4, 0x04, 0x00, 0x00, 0xFF, 0x00, 0x01],
           mDataBegin = 7, mDataEnd = 6\<rparr>"
    by (simp add: dataEnd_def dataBegin_def)
  have empty: "readData \<lparr>mCommand = [0x00, 0xA4, 0x04, 0x00, 0x00, 0xFF, 0x00, 0x01],
           mDataBegin = 7, mDataEnd = 6\<rparr> = []"
    by (simp add: readData_def range_of_def dataEnd_def dataBegin_def)
  have lc: "length (readData \<lparr>mCommand = [0x00, 0xA4, 0x04, 0x00, 0x00, 0xFF, 0x00, 0x01],
           mDataBegin = 7, mDataEnd = 6\<rparr>) \<noteq> unat (0xFFFFFFFFFFFFFFFF :: size_t)"
    unfolding empty max by (simp add: unat_max)
  show ?thesis by (intro conjI built order empty lc)
qed

section \<open>Properties of the response view\<close>

lemmas sw1_consts = BYTES_AVAILABLE_def SW1_WARNING_NON_VOLATILE_MEMORY_UNCHANGED_def
  SW1_WARNING_NON_VOLATILE_MEMORY_CHANGED_def SW1_FIRST_EXECUTION_ERROR_def
  SW1_LAST_EXECUTION_ERROR_def SW1_FIRST_CHECKING_ERROR_def SW1_LAST_CHECKING_ERROR_def

lemma uint8_le_numeral: "(numeral k :: uint8_t) \<le> a \<longleftrightarrow> unat (numeral k :: uint8_t) \<le> unat a"
  by (rule word_le_nat_alt)

lemma uint8_ge_numeral: "a \<le> (numeral k :: uint8_t) \<longleftrightarrow> unat a \<le> unat (numeral k :: uint8_t)"
  by (rule word_le_nat_alt)

lemma uint8_eq_numeral: "a = (numeral k :: uint8_t) \<longleftrightarrow> unat a = unat (numeral k :: uint8_t)"
  by (rule word_unat_eq_iff)

subsection \<open>The signed result of remainingBytes\<close>

lemma remainingBytes_bits:
  assumes "2 \<le> length mData"
  shows "remainingBytes mData =
    Some (if unat (mData ! (length mData - 2)) = 0x61 then mData ! (length mData - 1) else 0)"
  using assms by (simp add: remainingBytes_def sw1_def sw2_def BYTES_AVAILABLE_def uint8_eq_numeral)

lemma sint_small:
  fixes w :: uint8_t
  assumes "unat w < 128"
  shows "sint w = uint w"
proof -
  have "uint w < 2 ^ 7" using assms by (simp add: unat_eq_nat_uint del: nat_uint_eq)
  moreover have "- (2 ^ 7) \<le> uint w" by (rule order_trans [of _ 0]) simp_all
  ultimately show ?thesis
    unfolding sint_uint by (simp add: signed_take_bit_int_eq_self)
qed

lemma sint_large:
  fixes w :: uint8_t
  assumes "128 \<le> unat w"
  shows "sint w = uint w - 256"
proof -
  have lo: "128 \<le> uint w" using assms by (simp add: unat_eq_nat_uint del: nat_uint_eq)
  have hi: "uint w < 256" using uint_lt2p [of w] by simp
  have "sint w = (uint w + 128) mod 256 - 128"
    by (simp add: sint_uint signed_take_bit_eq_take_bit_shift take_bit_eq_mod)
  also have "\<dots> = uint w - 256" using lo hi by (rule mod_upper_half) simp
  finally show ?thesis .
qed

text \<open>
  With sw1 = 0x61 the result is sw2 as long as sw2 is below 128; from 128 on the
  signed return type makes it sw2 - 256.
\<close>

lemma remainingBytes_small:
  assumes "2 \<le> length mData" and "unat (mData ! (length mData - 1)) < 128"
  shows "map_option sint (remainingBytes mData) =
    Some (if unat (mData ! (length mData - 2)) = 0x61 then uint (mData ! (length mData - 1)) else 0)"
  using assms by (simp add: remainingBytes_bits sint_small)

lemma remainingBytes_large:
  assumes "2 \<le> length mData" and "128 \<le> unat (mData ! (length mData - 1))"
    and "unat (mData ! (length mData - 2)) = 0x61"
  shows "map_option sint (remainingBytes mData) = Some (uint (mData ! (length mData - 1)) - 256)"
  using assms by (simp add: remainingBytes_bits sint_large)

text \<open>
  Claim C3. Over a sequence of at least two bytes \<open>remainingBytes()\<close> is to return sw2
  when sw1 is 0x61 and 0 otherwise, for every sw2 from 0 to 255. The code returns
  \<open>int8_t\<close>: over the response 61 C8 the result is -56, while sw2 is 200.
\<close>

theorem remainingBytes_negative:
  "map_option sint (remainingBytes [0x61, 0xC8]) = Some (- 56)
   \<and> map_option uint (sw2 [0x61, 0xC8]) = Some 200"
  by (simp add: remainingBytes_def sw1_def sw2_def BYTES_AVAILABLE_def)

text \<open>
  Claim C8. Over a sequence of at least two bytes with second-to-last byte sw1,
  \<open>isExecutionError()\<close> is true exactly when 0x64 \<le> sw1 \<le> 0x66, \<open>isCheckingError()\<close>
  exactly when 0x67 \<le> sw1 \<le> 0x6F, and \<open>isError()\<close> exactly when one of the two is
  true. Over 6A 82 \<open>isCheckingError()\<close> is true and \<open>isExecutionError()\<close> is false.
\<close>

theorem error_classes:
  assumes "2 \<le> length mData"
  shows "isExecutionError mData =
      Some (0x64 \<le> unat (mData ! (length mData - 2)) \<and> unat (mData ! (length mData - 2)) \<le> 0x66)
    \<and> isCheckingError mData =
      Some (0x67 \<le> unat (mData ! (length mData - 2)) \<and> unat (mData ! (length mData - 2)) \<le> 0x6F)
    \<and> isError mData =
      Some (isExecutionError mData = Some True \<or> isCheckingError mData = Some True)
    \<and> isCheckingError [0x6A, 0x82] = Some True
    \<and> isExecutionError [0x6A, 0x82] = Some False"
  using assms
  by (auto simp add: isError_def isExecutionError_def isCheckingError_def sw1_def sw1_consts
      uint8_le_numeral uint8_ge_numeral)

theorem error_classes_witness:
  "2 \<le> length [0x6A, 0x82 :: uint8_t]
   \<and> isCheckingError [0x6A, 0x82] = Some True
   \<and> isExecutionError [0x6A, 0x82] = Some False
   \<and> isError [0x6A, 0x82] = Some True"
  using error_classes [of "[0x6A, 0x82]"] by simp

text \<open>
  Claim C9. \<open>ok()\<close> is true exactly when the sequence has at least two bytes: it is
  false over the single byte 00 and true over 90 00.
\<close>

theorem ok_iff:
  "(ok mData \<longleftrightarrow> 2 \<le> length mData) \<and> ok [0x00] = False \<and> ok [0x90, 0x00] = True"
  by (simp add: ok_def STATUS_SIZE_def)

text \<open>
  Claim C10. Over a sequence of at least two bytes \<open>isWarning()\<close> and \<open>isError()\<close> are
  never both true: \<open>isWarning()\<close> is sw1 in {0x62, 0x63}, \<open>isError()\<close> is sw1 from 0x64
  to 0x6F, and a status word is at most one of warning, execution error and checking
  error.
\<close>

theorem warning_error_disjoint:
  assumes "2 \<le> length mData"
  shows "isWarning mData =
      Some (unat (mData ! (length mData - 2)) \<in> {0x62, 0x63})
    \<and> isError mData =
      Some (0x64 \<le> unat (mData ! (length mData - 2)) \<and> unat (mData ! (length mData - 2)) \<le> 0x6F)
    \<and> \<not> (isWarning mData = Some True \<and> isError mData = Some True)
    \<and> \<not> (isWarning mData = Some True \<and> isExecutionError mData = Some True)
    \<and> \<not> (isWarning mData = Some True \<and> isCheckingError mData = Some True)
    \<and> \<not> (isExecutionError mData = Some True \<and> isCheckingError mData = Some True)"
  using assms
  by (auto simp add: isWarning_def isError_def isExecutionError_def isCheckingError_def sw1_def sw1_consts
      uint8_le_numeral uint8_ge_numeral uint8_eq_numeral)

theorem warning_error_disjoint_witness:
  "2 \<le> length [0x63, 0x00 :: uint8_t]
   \<and> isWarning [0x63, 0x00] = Some True
   \<and> isError [0x63, 0x00] = Some False"
  using warning_error_disjoint [of "[0x63, 0x00]"] by simp

end
